theory Spec2Isabelle
  imports Main
begin

section \<open>Data model of \<^verbatim>\<open>podcastfy/core/podcast.py\<close>\<close>

text \<open>
  \<^verbatim>\<open>class PodcastState(Enum)\<close>, a plain \<^verbatim>\<open>Enum\<close>: members carry a \<^verbatim>\<open>.value\<close>, are all
  truthy, and support equality only.
\<close>

datatype PodcastState = INITIALIZED | TRANSCRIPT_BUILT | AUDIO_SEGMENTS_BUILT | STITCHED

fun state_value :: "PodcastState \<Rightarrow> nat" where
  "state_value INITIALIZED = 0"
| "state_value TRANSCRIPT_BUILT = 1"
| "state_value AUDIO_SEGMENTS_BUILT = 2"
| "state_value STITCHED = 3"

text \<open>
  The three stage functions. Python has two distinct callables for each name: the
  undecorated function \<^verbatim>\<open>func\<close> that the closure of \<^verbatim>\<open>podcast_stage\<close> captures, and
  the bound method \<^verbatim>\<open>self.<name>\<close>, which binds the decorated \<^verbatim>\<open>wrapper\<close> to the instance.
  \<^verbatim>\<open>functools.wraps\<close> copies the name and the docstring, not the identity. A method object
  compares equal to method objects only (same \<^verbatim>\<open>__self__\<close>, same \<^verbatim>\<open>__func__\<close>) and a function
  to itself only, so \<^verbatim>\<open>==\<close> and \<^verbatim>\<open>!=\<close> on these callables are equality of this datatype.
\<close>

datatype func_name = Build_transcript | Build_audio_segments | Stitch_audio_segments

datatype callable = Function func_name | BoundMethod func_name

text \<open>Exceptions, by the Python class that is raised.\<close>

datatype error =
    KeyError PodcastState
  | TypeError string
  | ValueError string
  | AttributeError string
  | BackendError string

text \<open>What the process prints on standard output.\<close>

datatype message =
    Skipping func_name PodcastState
  | ErrorIn func_name error
  | Rewinding PodcastState PodcastState
  | WarningEarlier PodcastState PodcastState

text \<open>
  \<^verbatim>\<open>TranscriptSegment\<close> defines no \<^verbatim>\<open>__eq__\<close>: \<^verbatim>\<open>==\<close> and \<^verbatim>\<open>list.index\<close> compare object
  identities. The field \<open>oid\<close> is that identity; two records with the same \<open>oid\<close> stand
  for one object.
\<close>

record TranscriptSegment =
  oid :: nat
  seg_text :: string
  speaker :: string
  tts_args :: "(string \<times> string) list"

record Transcript =
  segments :: "TranscriptSegment list"
  metadata :: "(string \<times> string) list"

text \<open>
  Decoded audio of the external codec (pydub), one list element per millisecond:
  \<^verbatim>\<open>len\<close> is the length, \<^verbatim>\<open>+\<close> appends, and an audio of length 0 is falsy (pydub defines
  \<^verbatim>\<open>__len__\<close> and no \<^verbatim>\<open>__bool__\<close>). The codec is idealised here: appending adds the
  lengths exactly, where the real one rounds frames to whole milliseconds; nothing proved
  below depends on the length of a stitched audio.
\<close>

type_synonym pydub = "nat list"

text \<open>
  What a call of \<^verbatim>\<open>tts_backend.text_to_speech\<close> returns: a path, or (for a coroutine
  function) a coroutine object whose awaiting yields a path or raises.
\<close>

datatype tts_value = PathObj string | CoroutineObj "error + string"

record AudioSegment =
  filepath :: tts_value
  length_ms :: int
  transcript_segment :: "TranscriptSegment option"
  cached_audio :: "pydub option"

text \<open>\<^verbatim>\<open>Podcast.audio\<close> holds \<^verbatim>\<open>None\<close>, or the result of \<^verbatim>\<open>sum([...])\<close>: the integer 0 for an
  empty list, an audio otherwise.\<close>

datatype audio_value = IntZero | Pydub pydub

record TTSBackend =
  text_to_speech :: "string \<Rightarrow> string \<Rightarrow> error + tts_value"
  is_async :: bool
  has_sync_and_async :: bool

datatype file_data = Mp3 pydub | Plaintext string

text \<open>
  The attributes of a \<^verbatim>\<open>Podcast\<close> instance (\<open>reworking\<close> is \<^verbatim>\<open>_reworking\<close>), followed by
  the state of the process that the methods change besides the instance: the lines printed
  (\<open>stdout\<close>), the next fresh object identity (\<open>next_id\<close>) and the files written (\<open>files\<close>).
\<close>

record Podcast =
  content :: string
  llm_backend :: "string \<Rightarrow> error + (string \<times> string) list"
  tts_backend :: TTSBackend
  default_tts_n_jobs :: int
  state :: PodcastState
  reworking :: bool
  transcript :: "Transcript option"
  audio_segments :: "AudioSegment list"
  audio :: "audio_value option"
  tts_has_async :: bool
  stdout :: "message list"
  next_id :: nat
  files :: "(string \<times> file_data) list"

text \<open>
  The collaborators outside the instance: the decoder \<^verbatim>\<open>PydubAudioSegment.from_file\<close>, and the
  time at which the \<open>i\<close>-th submitted synthesis call completes (chosen by the thread pool or
  the event loop, not by the program).
\<close>

record Env =
  from_file :: "tts_value \<Rightarrow> error + pydub"
  latency :: "nat \<Rightarrow> nat"

text \<open>
  A call returns normally (\<open>Inr\<close>) or raises (\<open>Inl\<close>), and in both cases leaves the instance
  as mutated so far. A call that never returns is \<open>None\<close>.
\<close>

type_synonym 'a outcome = "(error + 'a) \<times> Podcast"

section \<open>Construction\<close>

text \<open>
  \<^verbatim>\<open>Podcast.__init__\<close>. \<^verbatim>\<open>logging.warning(...)\<close> returns \<^verbatim>\<open>None\<close>, and \<^verbatim>\<open>raise None\<close> is a
  \<^verbatim>\<open>TypeError\<close>.
\<close>

definition init :: "string \<Rightarrow> (string \<Rightarrow> error + (string \<times> string) list) \<Rightarrow> TTSBackend \<Rightarrow> int
    \<Rightarrow> error + Podcast" where
  "init content' llm_backend' tts_backend' default_tts_n_jobs' =
     (if default_tts_n_jobs' > 1 \<and> \<not> is_async tts_backend'
      then Inl (TypeError ''exceptions must derive from BaseException'')
      else Inr \<lparr>content = content', llm_backend = llm_backend', tts_backend = tts_backend',
                default_tts_n_jobs = default_tts_n_jobs', state = INITIALIZED,
                reworking = False, transcript = None, audio_segments = [], audio = None,
                tts_has_async = has_sync_and_async tts_backend',
                stdout = [], next_id = 0, files = []\<rparr>)"

text \<open>
  \<^verbatim>\<open>self._next_stage_methods\<close>: the dictionary built once by \<^verbatim>\<open>__init__\<close>, with three keys, whose
  values are bound methods of the instance. \<open>next_stage_items\<close> is its \<^verbatim>\<open>.items()\<close>, in
  insertion order.
\<close>

definition next_stage_items :: "(PodcastState \<times> callable) list" where
  "next_stage_items =
     [(INITIALIZED, BoundMethod Build_transcript),
      (TRANSCRIPT_BUILT, BoundMethod Build_audio_segments),
      (AUDIO_SEGMENTS_BUILT, BoundMethod Stitch_audio_segments)]"

definition next_stage_methods :: "PodcastState \<Rightarrow> callable option" where
  "next_stage_methods = map_of next_stage_items"

section \<open>The stage decorator\<close>

text \<open>
  \<^verbatim>\<open>podcast_stage(func)\<close>: the wrapper. The dictionary lookup is outside the \<^verbatim>\<open>try\<close>, so a
  missing key raises \<^verbatim>\<open>KeyError\<close> before the guard is evaluated.
\<close>

definition podcast_stage :: "func_name \<Rightarrow> (Podcast \<Rightarrow> unit outcome option) \<Rightarrow> Podcast
    \<Rightarrow> unit outcome option" where
  "podcast_stage func_name' func self =
     (case next_stage_methods (state self) of
        None \<Rightarrow> Some (Inl (KeyError (state self)), self)
      | Some current_method \<Rightarrow>
          if current_method \<noteq> Function func_name' \<and> \<not> reworking self
          then Some (Inr (), self\<lparr>stdout := stdout self @ [Skipping func_name' (state self)]\<rparr>)
          else
            (case func self of
               None \<Rightarrow> None
             | Some (Inr result, self') \<Rightarrow>
                 (let next_state =
                        map_option fst
                          (find (\<lambda>(state', method). method = Function func_name') next_stage_items)
                  in Some (Inr result,
                       self'\<lparr>state := (case next_state of Some s \<Rightarrow> s | None \<Rightarrow> state self')\<rparr>))
             | Some (Inl e, self') \<Rightarrow>
                 Some (Inl e, self'\<lparr>stdout := stdout self' @ [ErrorIn func_name' e]\<rparr>)))"

section \<open>The stage functions\<close>

text \<open>
  \<^verbatim>\<open>build_transcript\<close>, undecorated. The list comprehension creates one fresh
  \<^verbatim>\<open>TranscriptSegment(text, speaker)\<close> per pair, with \<^verbatim>\<open>tts_args = {}\<close>.
\<close>

definition build_transcript_func :: "Podcast \<Rightarrow> unit outcome option" where
  "build_transcript_func self =
     (case llm_backend self (content self) of
        Inl e \<Rightarrow> Some (Inl e, self)
      | Inr generated_segments \<Rightarrow>
          (let segments' =
                 map (\<lambda>(i, (speaker', text')).
                        \<lparr>oid = i, seg_text = text', speaker = speaker', tts_args = []\<rparr>)
                     (enumerate (next_id self) generated_segments)
           in Some (Inr (),
                self\<lparr>transcript :=
                        Some \<lparr>segments = segments',
                              metadata = [(''source'', ''Generated content'')]\<rparr>,
                     next_id := next_id self + length generated_segments\<rparr>)))"

text \<open>\<^verbatim>\<open>_sync_text_to_speech\<close>: the returned value goes to the decoder as it is.\<close>

definition load_segment :: "Env \<Rightarrow> tts_value \<Rightarrow> TranscriptSegment \<Rightarrow> error + AudioSegment" where
  "load_segment env audio_file segment =
     (case from_file env audio_file of
        Inl e \<Rightarrow> Inl e
      | Inr audio_segment \<Rightarrow>
          Inr \<lparr>filepath = audio_file, length_ms = int (length audio_segment),
               transcript_segment = Some segment, cached_audio = None\<rparr>)"

definition sync_text_to_speech :: "Env \<Rightarrow> Podcast \<Rightarrow> TranscriptSegment \<Rightarrow> error + AudioSegment" where
  "sync_text_to_speech env self segment =
     (case text_to_speech (tts_backend self) (seg_text segment) (speaker segment) of
        Inl e \<Rightarrow> Inl e
      | Inr audio_file \<Rightarrow> load_segment env audio_file segment)"

text \<open>\<^verbatim>\<open>_async_text_to_speech\<close>: \<^verbatim>\<open>await\<close> of a value that is no awaitable is a \<^verbatim>\<open>TypeError\<close>.\<close>

definition async_text_to_speech :: "Env \<Rightarrow> Podcast \<Rightarrow> TranscriptSegment \<Rightarrow> error + AudioSegment" where
  "async_text_to_speech env self segment =
     (case text_to_speech (tts_backend self) (seg_text segment) (speaker segment) of
        Inl e \<Rightarrow> Inl e
      | Inr (PathObj p) \<Rightarrow> Inl (TypeError ''object PosixPath can not be used in await expression'')
      | Inr (CoroutineObj (Inl e)) \<Rightarrow> Inl e
      | Inr (CoroutineObj (Inr p)) \<Rightarrow> load_segment env (PathObj p) segment)"

text \<open>
  The order in which \<open>n\<close> submitted calls complete: by completion time, ties in submission
  order. Every latency gives a permutation of \<open>[0..<n]\<close>, so \<open>completion_order\<close> reads
  the results within range and yields each of them once.
\<close>

definition as_completed :: "Env \<Rightarrow> nat \<Rightarrow> nat list" where
  "as_completed env n = sort_key (latency env) [0..<n]"

definition completion_order :: "Env \<Rightarrow> 'a list \<Rightarrow> 'a list" where
  "completion_order env results = map (\<lambda>i. results ! i) (as_completed env (length results))"

text \<open>
  The loop \<^verbatim>\<open>for future in as_completed(...): self.audio_segments.append(future.result())\<close>:
  it stops at the first result that raises and keeps what it appended before.
\<close>

fun collect :: "(error + AudioSegment) list \<Rightarrow> AudioSegment list \<Rightarrow> error option \<times> AudioSegment list" where
  "collect [] acc = (None, acc)"
| "collect (Inl e # rs) acc = (Some e, acc)"
| "collect (Inr a # rs) acc = collect rs (acc @ [a])"

text \<open>\<^verbatim>\<open>self.transcript.segments.index(x)\<close>: the first position holding the object \<open>x\<close>.\<close>

fun index_of :: "TranscriptSegment list \<Rightarrow> TranscriptSegment option \<Rightarrow> nat option" where
  "index_of [] x = None"
| "index_of (s # ss) x =
     (if map_option oid x = Some (oid s) then Some 0 else map_option Suc (index_of ss x))"

fun sort_keys :: "TranscriptSegment list \<Rightarrow> AudioSegment list \<Rightarrow> nat list option" where
  "sort_keys segs [] = Some []"
| "sort_keys segs (x # xs) =
     (case index_of segs (transcript_segment x) of
        None \<Rightarrow> None
      | Some k \<Rightarrow> map_option ((#) k) (sort_keys segs xs))"

text \<open>
  \<^verbatim>\<open>self.audio_segments.sort(key=lambda x: self.transcript.segments.index(x.transcript_segment))\<close>:
  all keys are computed first (a \<^verbatim>\<open>ValueError\<close> of \<^verbatim>\<open>index\<close> leaves the list as it was), then
  the list is sorted stably by key.
\<close>

definition sort_audio_segments :: "Podcast \<Rightarrow> unit outcome" where
  "sort_audio_segments self =
     (case transcript self of
        None \<Rightarrow> (Inl (AttributeError ''segments''), self)
      | Some t \<Rightarrow>
          (case sort_keys (segments t) (audio_segments self) of
             None \<Rightarrow> (Inl (ValueError ''x is not in list''), self)
           | Some keys \<Rightarrow>
               (Inr (), self\<lparr>audio_segments :=
                               map snd (sort_key fst (zip keys (audio_segments self)))\<rparr>)))"

text \<open>\<^verbatim>\<open>n_jobs or self.default_tts_n_jobs\<close>: \<^verbatim>\<open>None\<close> and 0 are falsy.\<close>

definition effective_n_jobs :: "int option \<Rightarrow> Podcast \<Rightarrow> int" where
  "effective_n_jobs n_jobs self =
     (case n_jobs of
        None \<Rightarrow> default_tts_n_jobs self
      | Some n \<Rightarrow> if n = 0 then default_tts_n_jobs self else n)"

text \<open>
  \<^verbatim>\<open>build_audio_segments\<close>, undecorated. Asynchronous branch: \<^verbatim>\<open>asyncio.Semaphore\<close> rejects a
  negative value; with value 0 no task ever acquires it, so \<^verbatim>\<open>gather\<close> of at least one task
  never completes; \<^verbatim>\<open>gather\<close> raises the first exception to occur and then nothing is assigned,
  otherwise the results are assigned in task order. Thread branch: \<^verbatim>\<open>ThreadPoolExecutor\<close>
  rejects \<^verbatim>\<open>max_workers <= 0\<close>; the list is reset and filled in completion order.
\<close>

definition build_audio_segments_func :: "Env \<Rightarrow> int option \<Rightarrow> Podcast \<Rightarrow> unit outcome option" where
  "build_audio_segments_func env n_jobs self =
     (let n_jobs' = effective_n_jobs n_jobs self in
      if tts_has_async self then
        (if n_jobs' < 0 then Some (Inl (ValueError ''Semaphore initial value must be >= 0''), self)
         else
           (case transcript self of
              None \<Rightarrow> Some (Inl (AttributeError ''segments''), self)
            | Some t \<Rightarrow>
                (let results = map (async_text_to_speech env self) (segments t) in
                 if n_jobs' = 0 \<and> segments t \<noteq> [] then None
                 else
                   (case fst (collect (completion_order env results) []) of
                      Some e \<Rightarrow> Some (Inl e, self)
                    | None \<Rightarrow>
                        Some (sort_audio_segments
                               (self\<lparr>audio_segments := snd (collect results [])\<rparr>))))))
      else
        (if n_jobs' \<le> 0 then Some (Inl (ValueError ''max_workers must be greater than 0''), self)
         else
           (case transcript self of
              None \<Rightarrow> Some (Inl (AttributeError ''segments''), self)
            | Some t \<Rightarrow>
                (let results = map (sync_text_to_speech env self) (segments t) in
                 (case collect (completion_order env results) [] of
                    (Some e, appended) \<Rightarrow> Some (Inl e, self\<lparr>audio_segments := appended\<rparr>)
                  | (None, appended) \<Rightarrow>
                      Some (sort_audio_segments (self\<lparr>audio_segments := appended\<rparr>)))))))"

text \<open>
  The property \<^verbatim>\<open>AudioSegment.audio\<close>: the decoded audio is cached before its length is
  checked.
\<close>

definition audio_property :: "Env \<Rightarrow> AudioSegment \<Rightarrow> (error + pydub) \<times> AudioSegment" where
  "audio_property env seg =
     (case cached_audio seg of
        Some a \<Rightarrow> (Inr a, seg)
      | None \<Rightarrow>
          (case from_file env (filepath seg) of
             Inl e \<Rightarrow> (Inl e, seg)
           | Inr a \<Rightarrow>
               (if int (length a) \<noteq> length_ms seg
                then (Inl (ValueError ''Audio file length does not match specified length''),
                      seg\<lparr>cached_audio := Some a\<rparr>)
                else (Inr a, seg\<lparr>cached_audio := Some a\<rparr>))))"

text \<open>\<^verbatim>\<open>[segment.audio for segment in self.audio_segments]\<close>, left to right.\<close>

fun load_all :: "Env \<Rightarrow> AudioSegment list \<Rightarrow> (error + pydub list) \<times> AudioSegment list" where
  "load_all env [] = (Inr [], [])"
| "load_all env (s # ss) =
     (case audio_property env s of
        (Inl e, s') \<Rightarrow> (Inl e, s' # ss)
      | (Inr a, s') \<Rightarrow>
          (case load_all env ss of
             (Inl e, ss') \<Rightarrow> (Inl e, s' # ss')
           | (Inr as, ss') \<Rightarrow> (Inr (a # as), s' # ss')))"

text \<open>\<^verbatim>\<open>sum\<close> starts from the integer 0; \<^verbatim>\<open>0 + a\<close> is \<^verbatim>\<open>a\<close> and \<^verbatim>\<open>a + b\<close> appends.\<close>

fun py_sum :: "pydub list \<Rightarrow> audio_value" where
  "py_sum [] = IntZero"
| "py_sum (a # as) = Pydub (concat (a # as))"

definition stitch_audio_segments_func :: "Env \<Rightarrow> Podcast \<Rightarrow> unit outcome option" where
  "stitch_audio_segments_func env self =
     (case load_all env (audio_segments self) of
        (Inl e, segs') \<Rightarrow> Some (Inl e, self\<lparr>audio_segments := segs'\<rparr>)
      | (Inr as, segs') \<Rightarrow>
          Some (Inr (), self\<lparr>audio_segments := segs', audio := Some (py_sum as)\<rparr>))"

text \<open>The decorated methods, as attributes of the class.\<close>

definition build_transcript :: "Podcast \<Rightarrow> unit outcome option" where
  "build_transcript = podcast_stage Build_transcript build_transcript_func"

definition build_audio_segments :: "Env \<Rightarrow> int option \<Rightarrow> Podcast \<Rightarrow> unit outcome option" where
  "build_audio_segments env n_jobs =
     podcast_stage Build_audio_segments (build_audio_segments_func env n_jobs)"

definition stitch_audio_segments :: "Env \<Rightarrow> Podcast \<Rightarrow> unit outcome option" where
  "stitch_audio_segments env =
     podcast_stage Stitch_audio_segments (stitch_audio_segments_func env)"

section \<open>The stage controller\<close>

text \<open>\<^verbatim>\<open>next_method()\<close>: a call with no argument of a value of the dictionary.\<close>

fun call :: "Env \<Rightarrow> callable \<Rightarrow> Podcast \<Rightarrow> unit outcome option" where
  "call env (BoundMethod Build_transcript) self = build_transcript self"
| "call env (BoundMethod Build_audio_segments) self = build_audio_segments env None self"
| "call env (BoundMethod Stitch_audio_segments) self = stitch_audio_segments env self"
| "call env (Function f) self =
     Some (Inl (TypeError ''missing 1 required positional argument: self''), self)"

text \<open>\<^verbatim>\<open>_build_next_stage\<close>.\<close>

definition build_next_stage :: "Env \<Rightarrow> Podcast \<Rightarrow> bool outcome option" where
  "build_next_stage env self =
     (if state self = STITCHED then Some (Inr False, self)
      else
        (case next_stage_methods (state self) of
           None \<Rightarrow> Some (Inl (KeyError (state self)), self)
         | Some next_method \<Rightarrow>
             (case call env next_method self of
                None \<Rightarrow> None
              | Some (Inl e, self') \<Rightarrow> Some (Inl e, self')
              | Some (Inr u, self') \<Rightarrow> Some (Inr True, self'))))"

text \<open>\<^verbatim>\<open>finalize\<close>: \<^verbatim>\<open>while self._build_next_stage(): pass\<close>. The loop has no bound.\<close>

partial_function (option) finalize :: "Env \<Rightarrow> Podcast \<Rightarrow> unit outcome option" where
  "finalize env self =
     (case build_next_stage env self of
        None \<Rightarrow> None
      | Some (Inl e, self') \<Rightarrow> Some (Inl e, self')
      | Some (Inr again, self') \<Rightarrow>
          (if again then finalize env self' else Some (Inr (), self')))"

declare finalize.simps [code]

text \<open>\<^verbatim>\<open>reset_to_state\<close>.\<close>

definition reset_to_state :: "PodcastState \<Rightarrow> Podcast \<Rightarrow> Podcast" where
  "reset_to_state state' self =
     self\<lparr>state := state',
          transcript :=
            (if state_value state' < state_value TRANSCRIPT_BUILT then None else transcript self),
          audio_segments :=
            (if state_value state' < state_value AUDIO_SEGMENTS_BUILT then []
             else audio_segments self),
          audio := (if state_value state' < state_value STITCHED then None else audio self)\<rparr>"

text \<open>
  The context manager \<^verbatim>\<open>rework\<close>. Entry is the code up to \<^verbatim>\<open>yield\<close>; it returns
  \<^verbatim>\<open>original_state\<close> with the instance.
\<close>

definition rework_enter :: "PodcastState \<Rightarrow> Podcast \<Rightarrow> PodcastState \<times> Podcast" where
  "rework_enter target_state self =
     (let original_state = state self;
          self1 = self\<lparr>reworking := True\<rparr>
      in if state_value target_state < state_value (state self1)
         then (original_state,
               reset_to_state target_state
                 (self1\<lparr>stdout := stdout self1 @ [Rewinding (state self1) target_state]\<rparr>))
         else (original_state, self1))"

text \<open>The \<^verbatim>\<open>finally\<close> clause.\<close>

definition rework_exit :: "Env \<Rightarrow> PodcastState \<Rightarrow> bool \<Rightarrow> Podcast \<Rightarrow> unit outcome option" where
  "rework_exit env original_state auto_finalize self =
     (let self1 = self\<lparr>reworking := False\<rparr> in
      if state_value (state self1) < state_value original_state
      then
        (let self2 = self1\<lparr>stdout := stdout self1 @ [WarningEarlier (state self1) original_state]\<rparr>
         in if auto_finalize then finalize env self2 else Some (Inr (), self2))
      else Some (Inr (), self1))"

text \<open>
  \<^verbatim>\<open>with podcast.rework(target_state, auto_finalize): body\<close>. The \<^verbatim>\<open>finally\<close> clause runs
  whether the body returns or raises; an exception of the clause replaces the one of the body,
  otherwise the body's exception propagates after the clause.
\<close>

definition rework :: "Env \<Rightarrow> PodcastState \<Rightarrow> bool \<Rightarrow> (Podcast \<Rightarrow> unit outcome option) \<Rightarrow> Podcast
    \<Rightarrow> unit outcome option" where
  "rework env target_state auto_finalize body self =
     (case rework_enter target_state self of
        (original_state, self1) \<Rightarrow>
          (case body self1 of
             None \<Rightarrow> None
           | Some (r, self2) \<Rightarrow>
               (case rework_exit env original_state auto_finalize self2 of
                  None \<Rightarrow> None
                | Some (Inl e, self3) \<Rightarrow> Some (Inl e, self3)
                | Some (Inr u, self3) \<Rightarrow> Some (r, self3))))"

section \<open>Saving\<close>

text \<open>\<^verbatim>\<open>if self.audio:\<close> is false for \<^verbatim>\<open>None\<close>, for the integer 0 and for an audio of length 0.\<close>

fun audio_truthy :: "audio_value option \<Rightarrow> bool" where
  "audio_truthy None = False"
| "audio_truthy (Some IntZero) = False"
| "audio_truthy (Some (Pydub a)) = (a \<noteq> [])"

text \<open>
  \<^verbatim>\<open>Podcast.save\<close>. The export itself is the codec's; it is taken to succeed and recorded in
  \<open>files\<close>. Only an audio has \<^verbatim>\<open>export\<close>, and only an audio is truthy.
\<close>

definition save :: "string \<Rightarrow> Podcast \<Rightarrow> unit outcome" where
  "save filepath' self =
     (if state self \<noteq> STITCHED
      then (Inl (ValueError ''Podcast can only be saved after audio is stitched''), self)
      else if audio_truthy (audio self)
      then (case audio self of
              Some (Pydub a) \<Rightarrow> (Inr (), self\<lparr>files := (filepath', Mp3 a) # files self\<rparr>)
            | _ \<Rightarrow> (Inl (AttributeError ''export''), self))
      else (Inl (ValueError ''No stitched audio to save''), self))"

text \<open>
  \<^verbatim>\<open>a < b\<close> between two members of a plain \<^verbatim>\<open>Enum\<close>: the class defines no ordering, so the
  comparison raises \<^verbatim>\<open>TypeError\<close> whatever the members are.
\<close>

definition enum_less :: "PodcastState \<Rightarrow> PodcastState \<Rightarrow> error + bool" where
  "enum_less a b = Inl (TypeError ''< not supported between instances of PodcastState'')"

text \<open>\<^verbatim>\<open>sep.join(xs)\<close>.\<close>

fun join :: "string \<Rightarrow> string list \<Rightarrow> string" where
  "join sep [] = []"
| "join sep [x] = x"
| "join sep (x # y # ys) = x @ sep @ join sep (y # ys)"

text \<open>\<^verbatim>\<open>Transcript.__str__\<close>.\<close>

definition transcript_str :: "Transcript \<Rightarrow> string" where
  "transcript_str t =
     (let lines = map (\<lambda>segment. speaker segment @ '': '' @ seg_text segment) (segments t);
          metadata_str = join [CHR 0x0A] (map (\<lambda>(key, v). key @ '': '' @ v) (metadata t))
      in ''Metadata:'' @ [CHR 0x0A] @ metadata_str @ [CHR 0x0A, CHR 0x0A] @ ''Transcript:''
           @ [CHR 0x0A] @ join [CHR 0x0A] lines)"

text \<open>\<^verbatim>\<open>Podcast.save_transcript\<close>; a \<^verbatim>\<open>Transcript\<close> instance is always truthy.\<close>

definition save_transcript :: "string \<Rightarrow> Podcast \<Rightarrow> unit outcome" where
  "save_transcript filepath' self =
     (case enum_less (state self) TRANSCRIPT_BUILT of
        Inl e \<Rightarrow> (Inl e, self)
      | Inr below \<Rightarrow>
          (if below
           then (Inl (ValueError ''Transcript can only be saved after it is built''), self)
           else
             (case transcript self of
                Some t \<Rightarrow>
                  (Inr (), self\<lparr>files := (filepath', Plaintext (transcript_str t)) # files self\<rparr>)
              | None \<Rightarrow> (Inl (ValueError ''No transcript to save''), self))))"

section \<open>Concrete inputs\<close>

text \<open>
  The backends of the usage example at the end of the source file (\<^verbatim>\<open>DummyLLMBackend\<close>,
  \<^verbatim>\<open>DummyTTSBackend\<close>), a decoder that answers a 2 ms audio for every file, and a pool in which
  all calls take the same time.
\<close>

definition dummy_llm :: "string \<Rightarrow> error + (string \<times> string) list" where
  "dummy_llm prompt =
     Inr [(''Host'', ''Welcome to our podcast!''), (''Guest'', ''Thanks for having me!'')]"

definition dummy_tts :: TTSBackend where
  "dummy_tts =
     \<lparr>text_to_speech = (\<lambda>text voice. Inr (PathObj (''/tmp/'' @ voice @ ''.mp3''))),
      is_async = False, has_sync_and_async = False\<rparr>"

definition dummy_env :: Env where
  "dummy_env = \<lparr>from_file = (\<lambda>f. Inr [0, 0]), latency = (\<lambda>i. 0)\<rparr>"

text \<open>The instance that \<^verbatim>\<open>Podcast(content, DummyLLMBackend(), DummyTTSBackend())\<close> builds.\<close>

definition podcast0 :: Podcast where
  "podcast0 =
     \<lparr>content = ''This is a sample content for our podcast.'', llm_backend = dummy_llm,
      tts_backend = dummy_tts, default_tts_n_jobs = 1, state = INITIALIZED, reworking = False,
      transcript = None, audio_segments = [], audio = None, tts_has_async = False,
      stdout = [], next_id = 0, files = []\<rparr>"

text \<open>A blocking backend whose synthesis fails for the voice \<^verbatim>\<open>Guest\<close>.\<close>

definition flaky_tts :: TTSBackend where
  "flaky_tts =
     \<lparr>text_to_speech =
        (\<lambda>text voice. if voice = ''Guest'' then Inl (BackendError ''synthesis failed'')
                       else Inr (PathObj (''/tmp/'' @ voice @ ''.mp3''))),
      is_async = False, has_sync_and_async = False\<rparr>"

text \<open>The transcript that \<^verbatim>\<open>build_transcript\<close> makes of the answer of \<^verbatim>\<open>DummyLLMBackend\<close>.\<close>

definition host_segment :: TranscriptSegment where
  "host_segment =
     \<lparr>oid = 0, seg_text = ''Welcome to our podcast!'', speaker = ''Host'', tts_args = []\<rparr>"

definition guest_segment :: TranscriptSegment where
  "guest_segment =
     \<lparr>oid = 1, seg_text = ''Thanks for having me!'', speaker = ''Guest'', tts_args = []\<rparr>"

definition dummy_transcript :: Transcript where
  "dummy_transcript =
     \<lparr>segments = [host_segment, guest_segment],
      metadata = [(''source'', ''Generated content'')]\<rparr>"

text \<open>The clip that \<^verbatim>\<open>DummyTTSBackend\<close> and the decoder above give for a segment.\<close>

definition clip_of :: "TranscriptSegment \<Rightarrow> AudioSegment" where
  "clip_of segment =
     \<lparr>filepath = PathObj (''/tmp/'' @ speaker segment @ ''.mp3''), length_ms = 2,
      transcript_segment = Some segment, cached_audio = None\<rparr>"

text \<open>
  An instance in state \<^verbatim>\<open>TRANSCRIPT_BUILT\<close> that holds the transcript, and one in state
  \<^verbatim>\<open>STITCHED\<close> that holds the transcript, its two clips (decoded) and their concatenation.
\<close>

definition podcast_transcript_built :: Podcast where
  "podcast_transcript_built =
     podcast0\<lparr>state := TRANSCRIPT_BUILT, transcript := Some dummy_transcript, next_id := 2\<rparr>"

definition podcast_stitched :: Podcast where
  "podcast_stitched =
     podcast0\<lparr>state := STITCHED, transcript := Some dummy_transcript,
              audio_segments := [(clip_of host_segment)\<lparr>cached_audio := Some [0, 0]\<rparr>,
                                 (clip_of guest_segment)\<lparr>cached_audio := Some [0, 0]\<rparr>],
              audio := Some (Pydub [0, 0, 0, 0]), next_id := 2\<rparr>"

text \<open>
  Blocks that a caller runs inside \<^verbatim>\<open>with podcast.rework(...)\<close>: one appends a new segment to
  the transcript, as the usage example does; one does so and then calls \<^verbatim>\<open>finalize()\<close>
  itself; one inserts a clip and then fails.
\<close>

definition new_segment :: TranscriptSegment where
  "new_segment =
     \<lparr>oid = 2, seg_text = ''This is a new segment'', speaker = ''Host'', tts_args = []\<rparr>"

definition append_segment :: "Podcast \<Rightarrow> unit outcome option" where
  "append_segment self =
     (case transcript self of
        None \<Rightarrow> Some (Inl (AttributeError ''segments''), self)
      | Some t \<Rightarrow>
          Some (Inr (), self\<lparr>transcript := Some (t\<lparr>segments := segments t @ [new_segment]\<rparr>),
                             next_id := next_id self + 1\<rparr>))"

definition append_then_finalize :: "Env \<Rightarrow> Podcast \<Rightarrow> unit outcome option" where
  "append_then_finalize env self =
     (case append_segment self of
        Some (Inr u, self') \<Rightarrow> finalize env self'
      | other \<Rightarrow> other)"


text \<open>
  The fresh instance after \<^verbatim>\<open>reset_to_state(PodcastState.AUDIO_SEGMENTS_BUILT)\<close>: it is in
  that state with an empty clip list.
\<close>

definition podcast_no_clips :: Podcast where
  "podcast_no_clips = reset_to_state AUDIO_SEGMENTS_BUILT podcast0"

text \<open>A block that builds the clips and stitches them.\<close>

definition build_then_stitch :: "Env \<Rightarrow> Podcast \<Rightarrow> unit outcome option" where
  "build_then_stitch env self =
     (case build_audio_segments env None self of
        Some (Inr u, self') \<Rightarrow> stitch_audio_segments env self'
      | other \<Rightarrow> other)"

text \<open>
  A transcript in which one segment object occurs twice (a caller appended
  \<^verbatim>\<open>podcast.transcript.segments[0]\<close> again), and a pool in which later calls complete first.
\<close>

definition repeated_transcript :: Transcript where
  "repeated_transcript =
     \<lparr>segments = [host_segment, guest_segment, host_segment],
      metadata = [(''source'', ''Generated content'')]\<rparr>"

definition reversed_env :: Env where
  "reversed_env = \<lparr>from_file = (\<lambda>f. Inr [0, 0]), latency = (\<lambda>i. 2 - i)\<rparr>"

section \<open>Stage guard and stage transitions\<close>

lemma next_stage_methods_simps [simp]:
  "next_stage_methods INITIALIZED = Some (BoundMethod Build_transcript)"
  "next_stage_methods TRANSCRIPT_BUILT = Some (BoundMethod Build_audio_segments)"
  "next_stage_methods AUDIO_SEGMENTS_BUILT = Some (BoundMethod Stitch_audio_segments)"
  "next_stage_methods STITCHED = None"
  by (simp_all add: next_stage_methods_def next_stage_items_def)

text \<open>No value of the dictionary equals an undecorated function.\<close>

lemma next_stage_methods_bound:
  "next_stage_methods s = Some m \<Longrightarrow> m \<noteq> Function f"
  by (cases s) auto

lemma no_next_state [simp]:
  "find (\<lambda>(state', method). method = Function f) next_stage_items = None"
  by (simp add: next_stage_items_def)

lemma podcast_stage_stitched:
  "state self = STITCHED \<Longrightarrow> podcast_stage f func self = Some (Inl (KeyError STITCHED), self)"
  by (simp add: podcast_stage_def)

text \<open>Outside a rework scope the wrapper skips every stage function, the mapped one too.\<close>

lemma podcast_stage_skip:
  assumes "\<not> reworking self" and "state self \<noteq> STITCHED"
  shows "podcast_stage f func self =
           Some (Inr (), self\<lparr>stdout := stdout self @ [Skipping f (state self)]\<rparr>)"
proof -
  obtain m where m: "next_stage_methods (state self) = Some m"
    using assms(2) by (cases "state self") auto
  then have "m \<noteq> Function f" by (rule next_stage_methods_bound)
  with m assms(1) show ?thesis by (simp add: podcast_stage_def)
qed

text \<open>Inside a rework scope the function runs, and the state is assigned to itself.\<close>

lemma podcast_stage_reworking:
  assumes "reworking self" and "state self \<noteq> STITCHED"
  shows "podcast_stage f func self =
           (case func self of
              None \<Rightarrow> None
            | Some (Inr result, self') \<Rightarrow> Some (Inr result, self')
            | Some (Inl e, self') \<Rightarrow>
                Some (Inl e, self'\<lparr>stdout := stdout self' @ [ErrorIn f e]\<rparr>))"
proof -
  obtain m where m: "next_stage_methods (state self) = Some m"
    using assms(2) by (cases "state self") auto
  with assms(1) show ?thesis
    by (simp add: podcast_stage_def split: option.splits prod.splits sum.splits)
qed

subsection \<open>No call changes the state or the rework flag\<close>

lemma sort_audio_segments_frame:
  "sort_audio_segments self = (r, self') \<Longrightarrow>
     state self' = state self \<and> reworking self' = reworking self"
  by (auto simp: sort_audio_segments_def split: option.splits)

lemma build_transcript_func_frame:
  "build_transcript_func self = Some (r, self') \<Longrightarrow>
     state self' = state self \<and> reworking self' = reworking self"
  by (auto simp: build_transcript_func_def Let_def split: sum.splits)

lemma build_audio_segments_func_frame:
  "build_audio_segments_func env n_jobs self = Some (r, self') \<Longrightarrow>
     state self' = state self \<and> reworking self' = reworking self"
  by (auto simp: build_audio_segments_func_def Let_def
           split: if_splits option.splits prod.splits dest!: sort_audio_segments_frame)

lemma stitch_audio_segments_func_frame:
  "stitch_audio_segments_func env self = Some (r, self') \<Longrightarrow>
     state self' = state self \<and> reworking self' = reworking self"
  by (auto simp: stitch_audio_segments_func_def split: prod.splits sum.splits)

lemma podcast_stage_frame:
  assumes func: "\<And>r self'. func self = Some (r, self') \<Longrightarrow>
                   state self' = state self \<and> reworking self' = reworking self"
      and run: "podcast_stage f func self = Some (r, self')"
  shows "state self' = state self \<and> reworking self' = reworking self"
proof (cases "state self = STITCHED")
  case True
  with run show ?thesis by (simp add: podcast_stage_stitched)
next
  case False
  show ?thesis
  proof (cases "reworking self")
    case False
    with \<open>state self \<noteq> STITCHED\<close> run show ?thesis by (auto simp: podcast_stage_skip)
  next
    case True
    with \<open>state self \<noteq> STITCHED\<close> run func show ?thesis
      by (auto simp: podcast_stage_reworking split: option.splits prod.splits sum.splits)
  qed
qed

lemma build_transcript_frame:
  "build_transcript self = Some (r, self') \<Longrightarrow>
     state self' = state self \<and> reworking self' = reworking self"
  unfolding build_transcript_def
  by (rule podcast_stage_frame [where func = build_transcript_func])
     (blast dest: build_transcript_func_frame)+

lemma build_audio_segments_frame:
  "build_audio_segments env n_jobs self = Some (r, self') \<Longrightarrow>
     state self' = state self \<and> reworking self' = reworking self"
  unfolding build_audio_segments_def
  by (rule podcast_stage_frame [where func = "build_audio_segments_func env n_jobs"])
     (blast dest: build_audio_segments_func_frame)+

lemma stitch_audio_segments_frame:
  "stitch_audio_segments env self = Some (r, self') \<Longrightarrow>
     state self' = state self \<and> reworking self' = reworking self"
  unfolding stitch_audio_segments_def
  by (rule podcast_stage_frame [where func = "stitch_audio_segments_func env"])
     (blast dest: stitch_audio_segments_func_frame)+

lemma call_frame:
  assumes "call env m self = Some (r, self')"
  shows "state self' = state self \<and> reworking self' = reworking self"
proof (cases m)
  case (Function f)
  with assms show ?thesis by simp
next
  case (BoundMethod f)
  with assms show ?thesis
    by (cases f)
       (simp_all add: build_transcript_frame build_audio_segments_frame
                      stitch_audio_segments_frame)
qed

subsection \<open>The loop of \<^verbatim>\<open>finalize\<close>\<close>

lemma build_next_stage_again:
  assumes "build_next_stage env self = Some (Inr again, self')"
  shows "if again then state self \<noteq> STITCHED \<and> state self' = state self \<and>
                       reworking self' = reworking self
         else state self = STITCHED \<and> self' = self"
  using assms
  by (auto simp: build_next_stage_def split: if_splits option.splits prod.splits sum.splits
           dest: call_frame)

lemma build_next_stage_skip:
  assumes "\<not> reworking self" and "state self \<noteq> STITCHED"
  shows "\<exists>f. build_next_stage env self =
           Some (Inr True, self\<lparr>stdout := stdout self @ [Skipping f (state self)]\<rparr>)"
  using assms
  by (cases "state self")
     (auto simp: build_next_stage_def build_transcript_def build_audio_segments_def
                 stitch_audio_segments_def podcast_stage_skip)

text \<open>In state \<^verbatim>\<open>STITCHED\<close> the loop ends at once and nothing is touched.\<close>

lemma finalize_stitched:
  "state self = STITCHED \<Longrightarrow> finalize env self = Some (Inr (), self)"
  by (subst finalize.simps) (simp add: build_next_stage_def)

text \<open>
  A normal return of \<^verbatim>\<open>finalize\<close> needs the state \<^verbatim>\<open>STITCHED\<close> at its start: no stage call
  changes the state, so the loop condition never changes.
\<close>

lemma finalize_returns_only_if_stitched_aux:
  "finalize env self = Some y \<Longrightarrow>
     (\<forall>u. fst y = Inr u \<longrightarrow> state self = STITCHED \<and> snd y = self)"
proof (induction rule: finalize.raw_induct [rotated, consumes 1])
  case (1 finalize' env self y)
  show ?case
  proof (cases "build_next_stage env self")
    case None
    with 1(2) show ?thesis by simp
  next
    case (Some o1)
    obtain r self1 where o1: "o1 = (r, self1)" by (cases o1)
    show ?thesis
    proof (cases r)
      case (Inl e)
      with 1(2) Some o1 show ?thesis by auto
    next
      case (Inr again)
      note step = build_next_stage_again [OF Some [unfolded o1 Inr]]
      show ?thesis
      proof (cases again)
        case True
        with 1(2) Some o1 Inr have "finalize' env self1 = Some y" by simp
        from 1(1) [OF this] step True show ?thesis by auto
      next
        case False
        with 1(2) Some o1 Inr step show ?thesis by auto
      qed
    qed
  qed
qed

lemma finalize_returns_only_if_stitched:
  "finalize env self = Some (Inr u, self') \<Longrightarrow> state self = STITCHED \<and> self' = self"
  using finalize_returns_only_if_stitched_aux [of env self "(Inr u, self')"] by simp

text \<open>Outside a rework scope every iteration is a skipped call, and the loop goes on.\<close>

lemma finalize_diverges_aux:
  "finalize env self = Some y \<Longrightarrow> reworking self \<or> state self = STITCHED"
proof (induction rule: finalize.raw_induct [rotated, consumes 1])
  case (1 finalize' env self y)
  show ?case
  proof (rule ccontr)
    assume "\<not> (reworking self \<or> state self = STITCHED)"
    then have nr: "\<not> reworking self" and ns: "state self \<noteq> STITCHED" by auto
    from build_next_stage_skip [OF nr ns, of env] obtain f where
      "build_next_stage env self =
         Some (Inr True, self\<lparr>stdout := stdout self @ [Skipping f (state self)]\<rparr>)" ..
    with 1(2) have "finalize' env (self\<lparr>stdout := stdout self @ [Skipping f (state self)]\<rparr>) = Some y"
      by simp
    then have "reworking (self\<lparr>stdout := stdout self @ [Skipping f (state self)]\<rparr>) \<or>
               state (self\<lparr>stdout := stdout self @ [Skipping f (state self)]\<rparr>) = STITCHED"
      by (rule 1(1))
    with nr ns show False by simp
  qed
qed

lemma finalize_diverges:
  "\<not> reworking self \<Longrightarrow> state self \<noteq> STITCHED \<Longrightarrow> finalize env self = None"
  using finalize_diverges_aux [of env self] by (cases "finalize env self") auto

text \<open>
  Claim C1, at the instance that the constructor builds for the backends of the usage
  example, whose calls all succeed: \<^verbatim>\<open>finalize()\<close> never returns, since every iteration of its
  loop is a call that the stage guard skips and the state stays \<^verbatim>\<open>INITIALIZED\<close>. The second
  half of the claim holds: in state \<^verbatim>\<open>STITCHED\<close> \<^verbatim>\<open>finalize()\<close> returns at once and changes
  nothing.
\<close>

theorem finalize_never_returns_from_initialized:
  "finalize env podcast0 = None \<and>
   finalize env podcast_stitched = Some (Inr (), podcast_stitched)"
proof
  show "finalize env podcast0 = None"
    by (rule finalize_diverges) (simp_all add: podcast0_def)
  show "finalize env podcast_stitched = Some (Inr (), podcast_stitched)"
    by (rule finalize_stitched) (simp add: podcast_stitched_def)
qed

subsection \<open>The transcript that the stage function builds\<close>

lemma new_segments_pairs:
  "map (\<lambda>s. (speaker s, seg_text s))
     (map (\<lambda>(i, (speaker', text')).
             \<lparr>oid = i, seg_text = text', speaker = speaker', tts_args = []\<rparr>)
          (enumerate n pairs)) = pairs"
  by (induction pairs arbitrary: n) auto

lemma new_segments_oids_aux:
  "map oid
     (map (\<lambda>(i, (speaker', text')).
             \<lparr>oid = i, seg_text = text', speaker = speaker', tts_args = []\<rparr>) xs) = map fst xs"
  by (induction xs) auto

lemma new_segments_oids:
  "map oid
     (map (\<lambda>(i, (speaker', text')).
             \<lparr>oid = i, seg_text = text', speaker = speaker', tts_args = []\<rparr>)
          (enumerate n pairs)) = [n..<n + length pairs]"
  unfolding new_segments_oids_aux by simp

text \<open>
  The undecorated \<^verbatim>\<open>build_transcript\<close> maps the pairs of the backend one to one and in order
  into segments with empty \<^verbatim>\<open>tts_args\<close>, all of them distinct objects, and leaves the state
  alone.
\<close>

lemma build_transcript_func_segments:
  assumes "llm_backend self (content self) = Inr pairs"
  shows "\<exists>t. build_transcript_func self =
               Some (Inr (), self\<lparr>transcript := Some t,
                                  next_id := next_id self + length pairs\<rparr>) \<and>
             length (segments t) = length pairs \<and>
             map (\<lambda>s. (speaker s, seg_text s)) (segments t) = pairs \<and>
             (\<forall>s \<in> set (segments t). tts_args s = []) \<and>
             distinct (map oid (segments t))"
proof -
  let ?segs = "map (\<lambda>(i, (speaker', text')).
                      \<lparr>oid = i, seg_text = text', speaker = speaker', tts_args = []\<rparr>)
                   (enumerate (next_id self) pairs)"
  have args: "\<forall>s \<in> set ?segs. tts_args s = []" by auto
  have ids: "distinct (map oid ?segs)" unfolding new_segments_oids by simp
  have "build_transcript_func self =
          Some (Inr (), self\<lparr>transcript :=
                               Some \<lparr>segments = ?segs,
                                     metadata = [(''source'', ''Generated content'')]\<rparr>,
                             next_id := next_id self + length pairs\<rparr>)"
    using assms by (simp add: build_transcript_func_def Let_def)
  moreover have "length ?segs = length pairs" by simp
  ultimately show ?thesis
    using new_segments_pairs [of "next_id self" pairs] args ids
    by (intro exI [of _ "\<lparr>segments = ?segs, metadata = [(''source'', ''Generated content'')]\<rparr>"])
       (simp del: map_map)
qed

text \<open>
  Claim C2, at the same instance: \<^verbatim>\<open>build_transcript()\<close> in state \<^verbatim>\<open>INITIALIZED\<close> is skipped by
  the guard (the bound method of the dictionary never equals the undecorated function), so
  no transcript is set and the state stays \<^verbatim>\<open>INITIALIZED\<close>. Inside a rework scope the
  transcript is built, two segments in the order of the pairs with empty \<^verbatim>\<open>tts_args\<close>, and
  the state still stays \<^verbatim>\<open>INITIALIZED\<close>.
\<close>

theorem build_transcript_skipped_when_initialized:
  "build_transcript podcast0 =
     Some (Inr (), podcast0\<lparr>stdout := [Skipping Build_transcript INITIALIZED]\<rparr>) \<and>
   transcript (podcast0\<lparr>stdout := [Skipping Build_transcript INITIALIZED]\<rparr>) = None \<and>
   state (podcast0\<lparr>stdout := [Skipping Build_transcript INITIALIZED]\<rparr>) = INITIALIZED \<and>
   build_transcript (podcast0\<lparr>reworking := True\<rparr>) =
     Some (Inr (), podcast0\<lparr>reworking := True, transcript := Some dummy_transcript,
                            next_id := 2\<rparr>) \<and>
   state (podcast0\<lparr>reworking := True, transcript := Some dummy_transcript, next_id := 2\<rparr>)
     = INITIALIZED"
proof -
  have "build_transcript podcast0 =
          Some (Inr (), podcast0\<lparr>stdout := [Skipping Build_transcript INITIALIZED]\<rparr>)"
    by (simp add: build_transcript_def podcast_stage_skip podcast0_def)
  moreover
  have "build_transcript (podcast0\<lparr>reworking := True\<rparr>) =
          Some (Inr (), podcast0\<lparr>reworking := True, transcript := Some dummy_transcript,
                                 next_id := 2\<rparr>)"
    by (simp add: build_transcript_def podcast_stage_reworking podcast0_def
                  build_transcript_func_def dummy_llm_def dummy_transcript_def
                  host_segment_def guest_segment_def enumerate_eq_zip)
  ultimately show ?thesis by (simp add: podcast0_def)
qed

text \<open>
  Claim C7, at an instance in state \<^verbatim>\<open>STITCHED\<close>: the dictionary has no key \<^verbatim>\<open>STITCHED\<close>, so
  the lookup in the wrapper raises \<^verbatim>\<open>KeyError\<close> before the guard, outside a rework scope
  (where the claim promises a reported no-op) and inside one (where it promises that the
  function runs).
\<close>

theorem stage_call_when_stitched_raises_KeyError:
  "build_audio_segments env n_jobs podcast_stitched =
     Some (Inl (KeyError STITCHED), podcast_stitched) \<and>
   build_audio_segments env n_jobs (podcast_stitched\<lparr>reworking := True\<rparr>) =
     Some (Inl (KeyError STITCHED), podcast_stitched\<lparr>reworking := True\<rparr>)"
  by (simp add: build_audio_segments_def podcast_stage_stitched podcast_stitched_def)

section \<open>Construction: the blocking backend with several jobs\<close>

lemma init_podcast0:
  "init ''This is a sample content for our podcast.'' dummy_llm dummy_tts 1 = Inr podcast0"
  by (simp add: init_def podcast0_def dummy_tts_def)

text \<open>
  Claim C10. With a backend whose \<^verbatim>\<open>text_to_speech\<close> is no coroutine function and
  \<^verbatim>\<open>default_tts_n_jobs > 1\<close> the constructor raises (the \<^verbatim>\<open>TypeError\<close> of \<^verbatim>\<open>raise None\<close>);
  with \<^verbatim>\<open>default_tts_n_jobs = 1\<close>, or with an asynchronous backend, it returns an instance
  in state \<^verbatim>\<open>INITIALIZED\<close>.
\<close>

theorem init_raises_for_blocking_backend_with_jobs:
  "(\<not> is_async tts \<and> 1 < n \<longrightarrow> (\<exists>e. init c llm tts n = Inl e)) \<and>
   (n = 1 \<or> is_async tts \<longrightarrow> (\<exists>p. init c llm tts n = Inr p \<and> state p = INITIALIZED))"
  by (auto simp: init_def)

theorem init_raises_for_blocking_backend_with_jobs_witness:
  "(\<not> is_async dummy_tts \<and> (1::int) < 2) \<and>
   init ''x'' dummy_llm dummy_tts 2 = Inl (TypeError ''exceptions must derive from BaseException'') \<and>
   init ''This is a sample content for our podcast.'' dummy_llm dummy_tts 1 = Inr podcast0 \<and>
   state podcast0 = INITIALIZED"
proof -
  have blocking: "\<not> is_async dummy_tts \<and> (1::int) < 2"
    by (simp add: dummy_tts_def)
  from init_raises_for_blocking_backend_with_jobs [of dummy_tts 2 "''x''" dummy_llm] blocking
  obtain e where "init ''x'' dummy_llm dummy_tts 2 = Inl e"
    by blast
  moreover
  from init_raises_for_blocking_backend_with_jobs
         [of dummy_tts 1 "''This is a sample content for our podcast.''" dummy_llm]
  obtain p where "init ''This is a sample content for our podcast.'' dummy_llm dummy_tts 1 = Inr p"
    and "state p = INITIALIZED"
    by blast
  ultimately show ?thesis
    using blocking by (simp add: init_podcast0) (simp add: init_def)
qed

section \<open>Rework\<close>

lemma finalize_frame_aux:
  "finalize env self = Some y \<Longrightarrow>
     state (snd y) = state self \<and> reworking (snd y) = reworking self"
proof (induction rule: finalize.raw_induct [rotated, consumes 1])
  case (1 finalize' env self y)
  show ?case
  proof (cases "build_next_stage env self")
    case None
    with 1(2) show ?thesis by simp
  next
    case (Some o1)
    obtain r self1 where o1: "o1 = (r, self1)" by (cases o1)
    have step: "state self1 = state self \<and> reworking self1 = reworking self"
      using Some o1
      by (auto simp: build_next_stage_def split: if_splits option.splits prod.splits sum.splits
               dest: call_frame)
    show ?thesis
    proof (cases r)
      case (Inl e)
      with 1(2) Some o1 step show ?thesis by auto
    next
      case (Inr again)
      show ?thesis
      proof (cases again)
        case True
        with 1(2) Some o1 Inr have "finalize' env self1 = Some y" by simp
        from 1(1) [OF this] step show ?thesis by simp
      next
        case False
        with 1(2) Some o1 Inr step show ?thesis by auto
      qed
    qed
  qed
qed

lemma finalize_frame:
  "finalize env self = Some (r, self') \<Longrightarrow>
     state self' = state self \<and> reworking self' = reworking self"
  using finalize_frame_aux [of env self "(r, self')"] by simp

text \<open>
  The \<^verbatim>\<open>finally\<close> clause with \<^verbatim>\<open>auto_finalize\<close>, entered in an earlier state: it clears the
  flag and calls \<^verbatim>\<open>finalize()\<close>, which then runs outside a rework scope and never returns.
\<close>

lemma rework_exit_diverges:
  assumes earlier: "state_value (state self) < state_value original_state"
  shows "rework_exit env original_state True self = None"
proof -
  from earlier have "state self \<noteq> STITCHED"
    by (cases "state self"; cases original_state) auto
  with earlier show ?thesis
    by (simp add: rework_exit_def Let_def finalize_diverges)
qed

text \<open>
  Claim C5, at the instance in state \<^verbatim>\<open>STITCHED\<close> with a transcript of two segments: the round
  trip never returns. With \<^verbatim>\<open>auto_finalize\<close> (the default) the \<^verbatim>\<open>finalize()\<close> of the exit
  does not return; with \<^verbatim>\<open>auto_finalize = False\<close> the scope leaves three segments, no clip and
  the state \<^verbatim>\<open>TRANSCRIPT_BUILT\<close>, and a \<^verbatim>\<open>finalize()\<close> after it does not return; with
  \<^verbatim>\<open>finalize()\<close> called inside the scope the whole does not return either.
\<close>

theorem rework_round_trip_never_returns:
  "rework env TRANSCRIPT_BUILT True append_segment podcast_stitched = None \<and>
   rework env TRANSCRIPT_BUILT False append_segment podcast_stitched =
     Some (Inr (),
           podcast_transcript_built
             \<lparr>transcript :=
                Some (dummy_transcript
                        \<lparr>segments := [host_segment, guest_segment, new_segment]\<rparr>),
              next_id := 3,
              stdout := [Rewinding STITCHED TRANSCRIPT_BUILT,
                         WarningEarlier TRANSCRIPT_BUILT STITCHED]\<rparr>) \<and>
   finalize env
     (podcast_transcript_built
        \<lparr>transcript :=
           Some (dummy_transcript\<lparr>segments := [host_segment, guest_segment, new_segment]\<rparr>),
         next_id := 3,
         stdout := [Rewinding STITCHED TRANSCRIPT_BUILT,
                    WarningEarlier TRANSCRIPT_BUILT STITCHED]\<rparr>) = None \<and>
   rework env TRANSCRIPT_BUILT True (append_then_finalize env) podcast_stitched = None"
proof -
  define p1 where "p1 = snd (rework_enter TRANSCRIPT_BUILT podcast_stitched)"
  have enter: "rework_enter TRANSCRIPT_BUILT podcast_stitched = (STITCHED, p1)"
    by (simp add: p1_def rework_enter_def Let_def podcast_stitched_def podcast0_def)
  have st1: "state p1 = TRANSCRIPT_BUILT"
    by (simp add: p1_def rework_enter_def Let_def podcast_stitched_def podcast0_def
                  reset_to_state_def)
  have auto: "rework env TRANSCRIPT_BUILT True append_segment podcast_stitched = None"
    by (simp add: rework_def rework_enter_def reset_to_state_def Let_def append_segment_def
                  podcast_stitched_def podcast0_def rework_exit_diverges)
  have manual: "rework env TRANSCRIPT_BUILT False append_segment podcast_stitched =
     Some (Inr (),
           podcast_transcript_built
             \<lparr>transcript :=
                Some (dummy_transcript
                        \<lparr>segments := [host_segment, guest_segment, new_segment]\<rparr>),
              next_id := 3,
              stdout := [Rewinding STITCHED TRANSCRIPT_BUILT,
                         WarningEarlier TRANSCRIPT_BUILT STITCHED]\<rparr>)"
    by (simp add: rework_def rework_enter_def reset_to_state_def Let_def append_segment_def
                  podcast_stitched_def podcast0_def rework_exit_def podcast_transcript_built_def
                  dummy_transcript_def)
  have after: "finalize env
     (podcast_transcript_built
        \<lparr>transcript :=
           Some (dummy_transcript\<lparr>segments := [host_segment, guest_segment, new_segment]\<rparr>),
         next_id := 3,
         stdout := [Rewinding STITCHED TRANSCRIPT_BUILT,
                    WarningEarlier TRANSCRIPT_BUILT STITCHED]\<rparr>) = None"
    by (rule finalize_diverges) (simp_all add: podcast_transcript_built_def podcast0_def)
  have inside: "rework env TRANSCRIPT_BUILT True (append_then_finalize env) podcast_stitched = None"
  proof (cases "append_then_finalize env p1")
    case None
    with enter show ?thesis by (simp add: rework_def)
  next
    case (Some y)
    obtain r p2 where y: "y = (r, p2)" by (cases y)
    have "state p2 = TRANSCRIPT_BUILT"
      using Some y st1
      by (auto simp: append_then_finalize_def append_segment_def
               split: option.splits prod.splits sum.splits dest!: finalize_frame)
    then have "rework_exit env STITCHED True p2 = None"
      by (simp add: rework_exit_diverges)
    with enter Some y show ?thesis by (simp add: rework_def)
  qed
  from auto manual after inside show ?thesis by simp
qed



section \<open>Synthesis: order of the clips\<close>

lemma set_as_completed: "set (as_completed env n) = {0..<n}"
  by (simp add: as_completed_def)

lemma distinct_as_completed: "distinct (as_completed env n)"
  by (simp add: as_completed_def)

text \<open>
  The model leaves the completion order free: every permutation of the submitted calls is
  the completion order of some latency.
\<close>

lemma every_order_is_a_completion_order:
  assumes "distinct order" and "set order = {0..<n}"
  shows "\<exists>lat. as_completed (env\<lparr>latency := lat\<rparr>) n = order"
proof -
  define lat where "lat i = length (takeWhile (\<lambda>j. j \<noteq> i) order)" for i
  from assms have len: "length order = n"
    by (metis card_atLeastLessThan diff_zero distinct_card)
  have pos: "lat (order ! k) = k" if "k < n" for k
  proof -
    have "takeWhile (\<lambda>j. j \<noteq> order ! k) order = take k order"
    proof (rule takeWhile_eq_take_P_nth)
      fix i assume "i < k" "i < length order"
      with that len assms(1) show "order ! i \<noteq> order ! k"
        by (simp add: nth_eq_iff_index_eq)
    qed simp
    with that len show ?thesis by (simp add: lat_def)
  qed
  then have keys: "map lat order = [0..<n]"
    using len by (intro nth_equalityI) simp_all
  have inj: "inj_on lat {0..<n}"
  proof (rule inj_onI)
    fix i j assume "i \<in> {0..<n}" "j \<in> {0..<n}" "lat i = lat j"
    with assms(2) obtain a b where "a < n" "order ! a = i" "b < n" "order ! b = j"
      by (metis in_set_conv_nth len)
    with pos \<open>lat i = lat j\<close> show "i = j" by metis
  qed
  let ?xs = "sort_key lat [0..<n]"
  have "map lat ?xs = map lat order"
  proof (rule sorted_distinct_set_unique)
    show "sorted (map lat ?xs)" by (rule sorted_sort_key)
    show "distinct (map lat ?xs)" using inj by (simp add: distinct_map)
    show "sorted (map lat order)" "distinct (map lat order)" by (simp_all add: keys)
    show "set (map lat ?xs) = set (map lat order)" using assms(2) by simp
  qed
  moreover have "inj_on lat (set ?xs \<union> set order)" using inj assms(2) by simp
  ultimately have "?xs = order" by (simp add: inj_on_map_eq_map)
  then have "as_completed (env\<lparr>latency := lat\<rparr>) n = order"
    by (simp add: as_completed_def)
  then show ?thesis by (intro exI [where x = lat])
qed

lemma sort_permutation_of_upt:
  assumes "distinct order" and "set order = {0..<n}"
  shows "sort_key (\<lambda>i. i) order = [0..<n]"
proof (rule sorted_distinct_set_unique)
  show "sorted (sort_key (\<lambda>i. i) order)"
    using sorted_sort_key [of "\<lambda>i. i" order] by simp
  show "distinct (sort_key (\<lambda>i. i) order)" using assms(1) by simp
  show "set (sort_key (\<lambda>i. i) order) = set [0..<n]" using assms(2) by simp
qed simp_all

lemma collect_all_ok: "collect (map Inr xs) acc = (None, acc @ xs)"
  by (induction xs arbitrary: acc) simp_all

lemma collect_no_failure:
  "fst (collect rs acc) = None \<Longrightarrow> \<exists>xs. rs = map Inr xs"
proof (induction rs acc rule: collect.induct)
  case (1 acc)
  then show ?case by simp
next
  case (2 e rs acc)
  then show ?case by simp
next
  case (3 a rs acc)
  then obtain xs where "rs = map Inr xs" by auto
  then show ?case by (intro exI [of _ "a # xs"]) simp
qed

text \<open>Among pairwise distinct objects, \<^verbatim>\<open>index\<close> of the \<open>i\<close>-th one is \<open>i\<close>.\<close>

lemma index_of_nth:
  "distinct (map oid segs) \<Longrightarrow> i < length segs \<Longrightarrow> index_of segs (Some (segs ! i)) = Some i"
proof (induction segs arbitrary: i)
  case Nil
  then show ?case by simp
next
  case (Cons s segs)
  show ?case
  proof (cases i)
    case 0
    then show ?thesis by simp
  next
    case (Suc j)
    with Cons.prems have j: "j < length segs" by simp
    then have "segs ! j \<in> set segs" by simp
    moreover from Cons.prems(1) have "oid s \<notin> oid ` set segs" by simp
    ultimately have "oid (segs ! j) \<noteq> oid s" by (metis imageI)
    with Cons.IH [of j] Cons.prems(1) Suc j show ?thesis by simp
  qed
qed

lemma sort_keys_map:
  "(\<And>i. i \<in> set order \<Longrightarrow> index_of segs (transcript_segment (c i)) = Some i) \<Longrightarrow>
     sort_keys segs (map c order) = Some order"
  by (induction order) simp_all

lemma zip_with_map: "zip xs (map f xs) = map (\<lambda>x. (x, f x)) xs"
  by (induction xs) simp_all

lemma insort_key_fst_pair:
  "insort_key fst (i, f i) (map (\<lambda>x. (x, f x)) xs) =
     map (\<lambda>x. (x, f x)) (insort_key (\<lambda>i. i) i xs)"
  by (induction xs) simp_all

lemma sort_key_fst_pair:
  "sort_key fst (map (\<lambda>x. (x, f x)) xs) = map (\<lambda>x. (x, f x)) (sort_key (\<lambda>i. i) xs)"
  by (induction xs) (simp_all add: insort_key_fst_pair)

text \<open>
  The final sort undoes any completion order, provided the segments are distinct objects
  and each clip refers back to the segment it was made from.
\<close>

lemma sort_audio_segments_restores_order:
  assumes t: "transcript self = Some t"
      and d: "distinct (map oid (segments t))"
      and len: "length clips = length (segments t)"
      and bref: "\<And>i. i < length clips \<Longrightarrow>
                   transcript_segment (clips ! i) = Some (segments t ! i)"
      and perm: "distinct order" "set order = {0..<length clips}"
      and held: "audio_segments self = map ((!) clips) order"
  shows "sort_audio_segments self = (Inr (), self\<lparr>audio_segments := clips\<rparr>)"
proof -
  have "index_of (segments t) (transcript_segment (clips ! i)) = Some i"
    if "i \<in> set order" for i
  proof -
    from that perm(2) have "i < length clips" by simp
    with bref [of i] index_of_nth [OF d, of i] len show ?thesis by simp
  qed
  then have keys: "sort_keys (segments t) (map ((!) clips) order) = Some order"
    by (rule sort_keys_map)
  have "map snd (sort_key fst (zip order (map ((!) clips) order))) =
          map ((!) clips) [0..<length clips]"
    by (simp add: zip_with_map sort_key_fst_pair sort_permutation_of_upt [OF perm] comp_def)
  also have "\<dots> = clips" by (rule map_nth)
  finally show ?thesis
    using t keys held by (simp add: sort_audio_segments_def)
qed

lemma load_segment_back_reference:
  "load_segment env f seg = Inr clip \<Longrightarrow> transcript_segment clip = Some seg"
  by (auto simp: load_segment_def split: sum.splits)

lemma sync_back_reference:
  "sync_text_to_speech env self seg = Inr clip \<Longrightarrow> transcript_segment clip = Some seg"
  by (auto simp: sync_text_to_speech_def split: sum.splits dest: load_segment_back_reference)

lemma async_back_reference:
  "async_text_to_speech env self seg = Inr clip \<Longrightarrow> transcript_segment clip = Some seg"
  by (auto simp: async_text_to_speech_def split: sum.splits tts_value.splits
           dest: load_segment_back_reference)

lemma completion_order_map_Inr:
  "completion_order env (map Inr clips) =
     map Inr (map ((!) clips) (as_completed env (length clips)))"
  by (simp add: completion_order_def set_as_completed)

lemma collect_completion_order:
  "collect (completion_order env (map Inr clips)) [] =
     (None, map ((!) clips) (as_completed env (length clips)))"
  unfolding completion_order_map_Inr collect_all_ok by simp

text \<open>When every call succeeds, the stage function stores the clips in segment order.\<close>

lemma build_audio_segments_func_all_ok:
  assumes t: "transcript self = Some t"
      and d: "distinct (map oid (segments t))"
      and synth: "synth = (if tts_has_async self then async_text_to_speech env self
                           else sync_text_to_speech env self)"
      and results: "map synth (segments t) = map Inr clips"
      and jobs: "if tts_has_async self
                 then 0 \<le> effective_n_jobs n_jobs self \<and>
                      (effective_n_jobs n_jobs self = 0 \<longrightarrow> segments t = [])
                 else 0 < effective_n_jobs n_jobs self"
  shows "build_audio_segments_func env n_jobs self =
           Some (Inr (), self\<lparr>audio_segments := clips\<rparr>)"
proof -
  from results have len: "length clips = length (segments t)"
    by (metis length_map)
  have bref: "transcript_segment (clips ! i) = Some (segments t ! i)" if "i < length clips" for i
  proof -
    from results that len have "synth (segments t ! i) = Inr (clips ! i)"
      by (metis nth_map)
    then show ?thesis
      unfolding synth by (auto split: if_splits dest: sync_back_reference async_back_reference)
  qed
  show ?thesis
  proof (cases "tts_has_async self")
    case True
    with results synth have r: "map (async_text_to_speech env self) (segments t) = map Inr clips"
      by simp
    have held: "audio_segments (self\<lparr>audio_segments := clips\<rparr>) =
                  map ((!) clips) [0..<length clips]"
      by (simp add: map_nth)
    have sorted: "sort_audio_segments (self\<lparr>audio_segments := clips\<rparr>) =
                    (Inr (), self\<lparr>audio_segments := clips\<rparr>)"
      using sort_audio_segments_restores_order
              [of "self\<lparr>audio_segments := clips\<rparr>" t clips "[0..<length clips]",
               OF _ d len bref _ _ held] t
      by simp
    from True jobs t sorted show ?thesis
      by (auto simp: build_audio_segments_func_def Let_def r collect_completion_order
                     collect_all_ok)
  next
    case False
    with results synth have r: "map (sync_text_to_speech env self) (segments t) = map Inr clips"
      by simp
    let ?order = "as_completed env (length clips)"
    have sorted: "sort_audio_segments (self\<lparr>audio_segments := map ((!) clips) ?order\<rparr>) =
                    (Inr (), self\<lparr>audio_segments := clips\<rparr>)"
      using sort_audio_segments_restores_order
              [of "self\<lparr>audio_segments := map ((!) clips) ?order\<rparr>" t clips ?order]
            t d len bref
      by (simp add: set_as_completed distinct_as_completed)
    from False jobs t sorted show ?thesis
      by (auto simp: build_audio_segments_func_def Let_def r collect_completion_order
                     collect_all_ok)
  qed
qed

text \<open>A normal return of the stage function means that every call succeeded.\<close>

lemma build_audio_segments_func_success:
  assumes run: "build_audio_segments_func env n_jobs self = Some (Inr u, self')"
      and t: "transcript self = Some t"
      and synth: "synth = (if tts_has_async self then async_text_to_speech env self
                           else sync_text_to_speech env self)"
  shows "(\<exists>clips. map synth (segments t) = map Inr clips) \<and>
         (if tts_has_async self
          then 0 \<le> effective_n_jobs n_jobs self \<and>
               (effective_n_jobs n_jobs self = 0 \<longrightarrow> segments t = [])
          else 0 < effective_n_jobs n_jobs self)"
proof -
  let ?results = "map synth (segments t)"
  have none: "fst (collect (completion_order env ?results) []) = None"
    and jobs: "if tts_has_async self
          then 0 \<le> effective_n_jobs n_jobs self \<and>
               (effective_n_jobs n_jobs self = 0 \<longrightarrow> segments t = [])
          else 0 < effective_n_jobs n_jobs self"
    using run t unfolding synth
    by (auto simp: build_audio_segments_func_def Let_def
             split: if_splits option.splits prod.splits)
  from collect_no_failure [OF none] obtain xs where
    xs: "completion_order env ?results = map Inr xs" ..
  have "?results ! i = Inr (projr (?results ! i))" if "i < length ?results" for i
  proof -
    from that have "i \<in> set (as_completed env (length ?results))"
      by (simp add: set_as_completed)
    then have "?results ! i \<in> set (completion_order env ?results)"
      by (simp add: completion_order_def)
    with xs show ?thesis by auto
  qed
  then have "?results = map Inr (map projr ?results)"
    by (intro nth_equalityI) simp_all
  with jobs show ?thesis by blast
qed

lemma from_file_dummy_env: "from_file dummy_env f = Inr [0, 0]"
  by (simp add: dummy_env_def)

lemma completion_order_dummy_env: "completion_order dummy_env results = results"
  by (simp add: completion_order_def as_completed_def dummy_env_def sort_key_const map_nth)

text \<open>
  Claim C3 as stated fails when one segment object occurs twice in the transcript. In a
  rework scope, with the transcript \<open>[host, guest, host]\<close>, one job and calls that complete
  in submission order, the call succeeds and stores three clips, but \<^verbatim>\<open>index\<close> gives both
  clips of \<open>host\<close> the position 0 and the sort puts them first: the clips are those of
  \<open>[host, host, guest]\<close>.
\<close>

theorem build_audio_segments_misorders_repeated_segment:
  "build_audio_segments dummy_env (Some 1)
     (podcast_transcript_built\<lparr>transcript := Some repeated_transcript, reworking := True\<rparr>) =
     Some (Inr (),
           podcast_transcript_built
             \<lparr>transcript := Some repeated_transcript, reworking := True,
              audio_segments := [clip_of host_segment, clip_of host_segment,
                                 clip_of guest_segment]\<rparr>) \<and>
   map transcript_segment [clip_of host_segment, clip_of host_segment, clip_of guest_segment]
     \<noteq> map Some (segments repeated_transcript)"
proof -
  let ?p = "podcast_transcript_built\<lparr>transcript := Some repeated_transcript, reworking := True\<rparr>"
  have inside: "reworking ?p" "state ?p \<noteq> STITCHED"
    by (simp_all add: podcast_transcript_built_def podcast0_def)
  have sorted: "sort_key fst [(0::nat, clip_of host_segment), (1, clip_of guest_segment),
                              (0, clip_of host_segment)] =
                [(0, clip_of host_segment), (0, clip_of host_segment), (1, clip_of guest_segment)]"
    by simp
  have func: "build_audio_segments_func dummy_env (Some 1) ?p =
        Some (Inr (), ?p\<lparr>audio_segments := [clip_of host_segment, clip_of host_segment,
                                               clip_of guest_segment]\<rparr>)"
    by (simp add: build_audio_segments_func_def effective_n_jobs_def podcast_transcript_built_def
          podcast0_def repeated_transcript_def completion_order_dummy_env sync_text_to_speech_def
          dummy_tts_def load_segment_def from_file_dummy_env sort_audio_segments_def sorted)
       (simp add: clip_of_def host_segment_def guest_segment_def)
  have "build_audio_segments dummy_env (Some 1) ?p =
          Some (Inr (), ?p\<lparr>audio_segments := [clip_of host_segment, clip_of host_segment,
                                                 clip_of guest_segment]\<rparr>)"
    unfolding build_audio_segments_def podcast_stage_reworking [OF inside] func by simp
  moreover
  have "map transcript_segment [clip_of host_segment, clip_of host_segment, clip_of guest_segment]
          \<noteq> map Some (segments repeated_transcript)"
    by (simp add: clip_of_def repeated_transcript_def host_segment_def guest_segment_def)
  ultimately show ?thesis by simp
qed

text \<open>
  Claim C3, as amended. Let the stage function run (the call is made inside a rework scope,
  in a state other than \<^verbatim>\<open>STITCHED\<close>) on a transcript of \<open>N\<close> segments that are pairwise
  distinct objects. Then for every \<^verbatim>\<open>n_jobs\<close>, every backend, every decoder and every
  completion order (\<open>env\<close> is arbitrary): a call that returns normally leaves exactly \<open>N\<close>
  clips, the \<open>i\<close>-th one being the clip synthesised from the \<open>i\<close>-th segment and referring back
  to it; and the call does return normally when the number of jobs is at least 1 and every
  per-segment call succeeds.
\<close>

theorem build_audio_segments_keeps_transcript_order:
  assumes inside: "reworking self" "state self \<noteq> STITCHED"
      and t: "transcript self = Some t"
      and d: "distinct (map oid (segments t))"
  shows "(build_audio_segments env n_jobs self = Some (Inr (), self') \<longrightarrow>
            length (audio_segments self') = length (segments t) \<and>
            map transcript_segment (audio_segments self') = map Some (segments t) \<and>
            map Inr (audio_segments self') =
              map (if tts_has_async self then async_text_to_speech env self
                   else sync_text_to_speech env self) (segments t)) \<and>
         (1 \<le> effective_n_jobs n_jobs self \<and>
          (\<forall>seg \<in> set (segments t).
              \<exists>clip. (if tts_has_async self then async_text_to_speech env self
                      else sync_text_to_speech env self) seg = Inr clip) \<longrightarrow>
            (\<exists>self''. build_audio_segments env n_jobs self = Some (Inr (), self'')))"
proof -
  define synth where "synth = (if tts_has_async self then async_text_to_speech env self
                               else sync_text_to_speech env self)"
  have stage: "build_audio_segments env n_jobs self =
                 (case build_audio_segments_func env n_jobs self of
                    None \<Rightarrow> None
                  | Some (Inr result, s) \<Rightarrow> Some (Inr result, s)
                  | Some (Inl e, s) \<Rightarrow>
                      Some (Inl e, s\<lparr>stdout := stdout s @ [ErrorIn Build_audio_segments e]\<rparr>))"
    unfolding build_audio_segments_def by (rule podcast_stage_reworking [OF inside])
  have ordered: "length (audio_segments self') = length (segments t) \<and>
            map transcript_segment (audio_segments self') = map Some (segments t) \<and>
            map Inr (audio_segments self') = map synth (segments t)"
    if run: "build_audio_segments env n_jobs self = Some (Inr (), self')"
  proof -
    from run stage have func: "build_audio_segments_func env n_jobs self = Some (Inr (), self')"
      by (auto split: option.splits prod.splits sum.splits)
    from build_audio_segments_func_success [OF func t synth_def]
    obtain clips where results: "map synth (segments t) = map Inr clips"
      and jobs: "if tts_has_async self
                 then 0 \<le> effective_n_jobs n_jobs self \<and>
                      (effective_n_jobs n_jobs self = 0 \<longrightarrow> segments t = [])
                 else 0 < effective_n_jobs n_jobs self"
      by blast
    from build_audio_segments_func_all_ok [OF t d synth_def results jobs] func
    have clips: "audio_segments self' = clips" by auto
    from results have len: "length clips = length (segments t)" by (metis length_map)
    have "transcript_segment (clips ! i) = Some (segments t ! i)" if "i < length clips" for i
    proof -
      from results that len have "synth (segments t ! i) = Inr (clips ! i)"
        by (metis nth_map)
      then show ?thesis
        unfolding synth_def
        by (auto split: if_splits dest: sync_back_reference async_back_reference)
    qed
    then have "map transcript_segment clips = map Some (segments t)"
      using len by (intro nth_equalityI) simp_all
    with clips len results show ?thesis by simp
  qed
  have succeeds: "\<exists>self''. build_audio_segments env n_jobs self = Some (Inr (), self'')"
    if jobs: "1 \<le> effective_n_jobs n_jobs self"
      and ok: "\<forall>seg \<in> set (segments t). \<exists>clip. synth seg = Inr clip"
  proof -
    from ok have "map synth (segments t) = map Inr (map (\<lambda>seg. projr (synth seg)) (segments t))"
      by auto
    from build_audio_segments_func_all_ok [OF t d synth_def this] jobs
    have "build_audio_segments_func env n_jobs self =
            Some (Inr (), self\<lparr>audio_segments := map (\<lambda>seg. projr (synth seg)) (segments t)\<rparr>)"
      by (auto split: if_splits)
    with stage show ?thesis by simp
  qed
  from ordered succeeds show ?thesis unfolding synth_def by blast
qed

text \<open>
  The transcript of the usage example inside a rework scope, two jobs, and a pool in which
  the second call completes first: the clips are stored in transcript order.
\<close>

theorem build_audio_segments_keeps_transcript_order_witness:
  "reworking (podcast_transcript_built\<lparr>reworking := True\<rparr>) \<and>
   state (podcast_transcript_built\<lparr>reworking := True\<rparr>) \<noteq> STITCHED \<and>
   transcript (podcast_transcript_built\<lparr>reworking := True\<rparr>) = Some dummy_transcript \<and>
   distinct (map oid (segments dummy_transcript)) \<and>
   as_completed reversed_env 2 = [1, 0] \<and>
   build_audio_segments reversed_env (Some 2) (podcast_transcript_built\<lparr>reworking := True\<rparr>) =
     Some (Inr (), podcast_transcript_built
                     \<lparr>reworking := True,
                      audio_segments := [clip_of host_segment, clip_of guest_segment]\<rparr>) \<and>
   length [clip_of host_segment, clip_of guest_segment] = length (segments dummy_transcript) \<and>
   map transcript_segment [clip_of host_segment, clip_of guest_segment] =
     map Some (segments dummy_transcript)"
proof -
  let ?p = "podcast_transcript_built\<lparr>reworking := True\<rparr>"
  let ?q = "?p\<lparr>audio_segments := [clip_of host_segment, clip_of guest_segment]\<rparr>"
  have inside: "reworking ?p" "state ?p \<noteq> STITCHED"
    and t: "transcript ?p = Some dummy_transcript"
    by (simp_all add: podcast_transcript_built_def podcast0_def)
  have d: "distinct (map oid (segments dummy_transcript))"
    by (simp add: dummy_transcript_def host_segment_def guest_segment_def)
  have order: "as_completed reversed_env 2 = [1, 0]"
    by (simp add: as_completed_def reversed_env_def upt_rec numeral_2_eq_2)
  have results: "map (if tts_has_async ?p then async_text_to_speech reversed_env ?p
                      else sync_text_to_speech reversed_env ?p) (segments dummy_transcript) =
                 map Inr [clip_of host_segment, clip_of guest_segment]"
    by (simp add: podcast_transcript_built_def podcast0_def dummy_transcript_def
          sync_text_to_speech_def dummy_tts_def load_segment_def reversed_env_def clip_of_def)
  have func: "build_audio_segments_func reversed_env (Some 2) ?p = Some (Inr (), ?q)"
    by (rule build_audio_segments_func_all_ok [OF t d refl results])
       (simp add: effective_n_jobs_def podcast_transcript_built_def podcast0_def)
  have run: "build_audio_segments reversed_env (Some 2) ?p = Some (Inr (), ?q)"
    unfolding build_audio_segments_def podcast_stage_reworking [OF inside] func by simp
  from build_audio_segments_keeps_transcript_order [OF inside t d, of reversed_env "Some 2" ?q] run
  have "length (audio_segments ?q) = length (segments dummy_transcript) \<and>
        map transcript_segment (audio_segments ?q) = map Some (segments dummy_transcript)"
    by blast
  with inside t d order run show ?thesis by simp
qed

text \<open>
  Claim C4, at the transcript of the usage example with a blocking backend that fails for the
  second segment, one job. Inside a rework scope the call raises the backend's exception and
  the state stays \<^verbatim>\<open>TRANSCRIPT_BUILT\<close>, but \<^verbatim>\<open>audio_segments\<close> holds the clip of the first
  segment: the thread branch resets the list and appends to it before the failing result is
  read. Outside a rework scope the call is skipped and raises nothing.
\<close>

theorem build_audio_segments_keeps_partial_list:
  "build_audio_segments dummy_env None
     (podcast_transcript_built\<lparr>tts_backend := flaky_tts, reworking := True\<rparr>) =
     Some (Inl (BackendError ''synthesis failed''),
           podcast_transcript_built
             \<lparr>tts_backend := flaky_tts, reworking := True,
              audio_segments := [clip_of host_segment],
              stdout := [ErrorIn Build_audio_segments (BackendError ''synthesis failed'')]\<rparr>) \<and>
   build_audio_segments dummy_env None (podcast_transcript_built\<lparr>tts_backend := flaky_tts\<rparr>) =
     Some (Inr (), podcast_transcript_built
             \<lparr>tts_backend := flaky_tts,
              stdout := [Skipping Build_audio_segments TRANSCRIPT_BUILT]\<rparr>)"
proof -
  let ?inside = "podcast_transcript_built\<lparr>tts_backend := flaky_tts, reworking := True\<rparr>"
  let ?outside = "podcast_transcript_built\<lparr>tts_backend := flaky_tts\<rparr>"
  have inside: "reworking ?inside" "state ?inside \<noteq> STITCHED"
    and outside: "\<not> reworking ?outside" "state ?outside \<noteq> STITCHED"
    by (simp_all add: podcast_transcript_built_def podcast0_def)
  have func: "build_audio_segments_func dummy_env None ?inside =
        Some (Inl (BackendError ''synthesis failed''),
              ?inside\<lparr>audio_segments := [clip_of host_segment]\<rparr>)"
    by (simp add: build_audio_segments_func_def effective_n_jobs_def podcast_transcript_built_def
          podcast0_def dummy_transcript_def completion_order_dummy_env sync_text_to_speech_def
          flaky_tts_def host_segment_def guest_segment_def load_segment_def from_file_dummy_env
          clip_of_def)
  have "build_audio_segments dummy_env None ?inside =
          Some (Inl (BackendError ''synthesis failed''),
                ?inside\<lparr>audio_segments := [clip_of host_segment],
                         stdout := [ErrorIn Build_audio_segments
                                      (BackendError ''synthesis failed'')]\<rparr>)"
    unfolding build_audio_segments_def podcast_stage_reworking [OF inside] func
    by (simp add: podcast_transcript_built_def podcast0_def)
  moreover
  have "build_audio_segments dummy_env None ?outside =
          Some (Inr (), ?outside\<lparr>stdout := [Skipping Build_audio_segments TRANSCRIPT_BUILT]\<rparr>)"
    unfolding build_audio_segments_def podcast_stage_skip [OF outside]
    by (simp add: podcast_transcript_built_def podcast0_def)
  ultimately show ?thesis by simp
qed

subsection \<open>The instances used above arise through the methods\<close>

text \<open>
  From the fresh instance: \<^verbatim>\<open>build_transcript()\<close> inside \<^verbatim>\<open>rework(INITIALIZED)\<close>, then
  \<^verbatim>\<open>reset_to_state(TRANSCRIPT_BUILT)\<close>.
\<close>

lemma podcast_transcript_built_reachable:
  "rework dummy_env INITIALIZED True build_transcript podcast0 =
     Some (Inr (), podcast0\<lparr>transcript := Some dummy_transcript, next_id := 2\<rparr>) \<and>
   reset_to_state TRANSCRIPT_BUILT (podcast0\<lparr>transcript := Some dummy_transcript, next_id := 2\<rparr>) =
     podcast_transcript_built"
proof -
  have "build_transcript (podcast0\<lparr>reworking := True\<rparr>) =
          Some (Inr (), podcast0\<lparr>reworking := True, transcript := Some dummy_transcript,
                                 next_id := 2\<rparr>)"
    by (simp add: build_transcript_def podcast_stage_reworking podcast0_def
                  build_transcript_func_def dummy_llm_def dummy_transcript_def
                  host_segment_def guest_segment_def enumerate_eq_zip)
  then show ?thesis
    by (simp add: rework_def rework_enter_def Let_def rework_exit_def reset_to_state_def
                  podcast_transcript_built_def)
       (simp add: podcast0_def)
qed

text \<open>
  From there: \<^verbatim>\<open>build_audio_segments()\<close> and \<^verbatim>\<open>stitch_audio_segments()\<close> inside
  \<^verbatim>\<open>rework(TRANSCRIPT_BUILT)\<close>, which leave the state \<^verbatim>\<open>TRANSCRIPT_BUILT\<close>, then
  \<^verbatim>\<open>reset_to_state(STITCHED)\<close>.
\<close>

lemma podcast_stitched_reachable:
  "rework dummy_env TRANSCRIPT_BUILT True (build_then_stitch dummy_env) podcast_transcript_built =
     Some (Inr (), podcast_stitched\<lparr>state := TRANSCRIPT_BUILT\<rparr>) \<and>
   reset_to_state STITCHED (podcast_stitched\<lparr>state := TRANSCRIPT_BUILT\<rparr>) = podcast_stitched"
proof -
  let ?p = "podcast_transcript_built\<lparr>reworking := True\<rparr>"
  let ?q = "?p\<lparr>audio_segments := [clip_of host_segment, clip_of guest_segment]\<rparr>"
  have inside: "reworking ?p" "state ?p \<noteq> STITCHED" "reworking ?q" "state ?q \<noteq> STITCHED"
    and t: "transcript ?p = Some dummy_transcript"
    by (simp_all add: podcast_transcript_built_def podcast0_def)
  have d: "distinct (map oid (segments dummy_transcript))"
    by (simp add: dummy_transcript_def host_segment_def guest_segment_def)
  have results: "map (if tts_has_async ?p then async_text_to_speech dummy_env ?p
                      else sync_text_to_speech dummy_env ?p) (segments dummy_transcript) =
                 map Inr [clip_of host_segment, clip_of guest_segment]"
    by (simp add: podcast_transcript_built_def podcast0_def dummy_transcript_def
          sync_text_to_speech_def dummy_tts_def load_segment_def from_file_dummy_env clip_of_def)
  have func: "build_audio_segments_func dummy_env None ?p = Some (Inr (), ?q)"
    by (rule build_audio_segments_func_all_ok [OF t d refl results])
       (simp add: effective_n_jobs_def podcast_transcript_built_def podcast0_def)
  have build: "build_audio_segments dummy_env None ?p = Some (Inr (), ?q)"
    unfolding build_audio_segments_def podcast_stage_reworking [OF inside(1,2)] func by simp
  have stitch: "stitch_audio_segments dummy_env ?q =
                  Some (Inr (), podcast_stitched\<lparr>state := TRANSCRIPT_BUILT, reworking := True\<rparr>)"
    unfolding stitch_audio_segments_def podcast_stage_reworking [OF inside(3,4)]
    by (simp add: stitch_audio_segments_func_def audio_property_def clip_of_def
                  from_file_dummy_env podcast_stitched_def podcast_transcript_built_def
                  podcast0_def)
  have enter: "rework_enter TRANSCRIPT_BUILT podcast_transcript_built = (TRANSCRIPT_BUILT, ?p)"
    by (simp add: rework_enter_def Let_def podcast_transcript_built_def)
  have "rework dummy_env TRANSCRIPT_BUILT True (build_then_stitch dummy_env)
          podcast_transcript_built =
        Some (Inr (), podcast_stitched\<lparr>state := TRANSCRIPT_BUILT\<rparr>)"
    by (simp add: rework_def enter build_then_stitch_def build stitch rework_exit_def Let_def)
       (simp add: podcast_stitched_def podcast0_def)
  moreover
  have "reset_to_state STITCHED (podcast_stitched\<lparr>state := TRANSCRIPT_BUILT\<rparr>) = podcast_stitched"
    by (simp add: reset_to_state_def podcast_stitched_def podcast0_def)
  ultimately show ?thesis by simp
qed

section \<open>Stitching an empty clip list\<close>

text \<open>
  Claim C8 as stated fails: with state \<^verbatim>\<open>AUDIO_SEGMENTS_BUILT\<close> and no clip, the call raises
  nothing. Outside a rework scope it is skipped; inside one, \<^verbatim>\<open>sum([])\<close> is the integer 0 and
  is stored in \<^verbatim>\<open>audio\<close>.
\<close>

theorem stitch_of_no_clips_returns_normally:
  "stitch_audio_segments dummy_env podcast_no_clips =
     Some (Inr (),
           podcast_no_clips\<lparr>stdout := [Skipping Stitch_audio_segments AUDIO_SEGMENTS_BUILT]\<rparr>) \<and>
   stitch_audio_segments dummy_env (podcast_no_clips\<lparr>reworking := True\<rparr>) =
     Some (Inr (), podcast_no_clips\<lparr>reworking := True, audio := Some IntZero\<rparr>)"
  by (simp add: stitch_audio_segments_def podcast_stage_skip podcast_stage_reworking
        podcast_no_clips_def reset_to_state_def podcast0_def stitch_audio_segments_func_def)

text \<open>
  Claim C8, as amended. When the stage function runs (the call is made inside a rework
  scope), \<^verbatim>\<open>stitch_audio_segments\<close> on an instance in state \<^verbatim>\<open>AUDIO_SEGMENTS_BUILT\<close> with an
  empty clip list raises nothing and produces no audio: it stores the integer 0, the value
  of \<^verbatim>\<open>sum([])\<close>, in \<^verbatim>\<open>audio\<close>, which is a falsy value and no audio, and the clip list stays
  empty.
\<close>

theorem stitch_of_empty_list_raises_nothing:
  assumes "reworking self"
      and "state self = AUDIO_SEGMENTS_BUILT"
      and "audio_segments self = []"
  shows "\<exists>self'. stitch_audio_segments env self = Some (Inr (), self') \<and>
           audio self' = Some IntZero \<and>
           \<not> audio_truthy (audio self') \<and>
           audio_segments self' = []"
  using assms
  by (simp add: stitch_audio_segments_def podcast_stage_reworking stitch_audio_segments_func_def)

text \<open>
  The fresh instance after \<^verbatim>\<open>reset_to_state(PodcastState.AUDIO_SEGMENTS_BUILT)\<close>, inside a
  rework scope.
\<close>

theorem stitch_of_empty_list_raises_nothing_witness:
  "reworking (podcast_no_clips\<lparr>reworking := True\<rparr>) \<and>
   state (podcast_no_clips\<lparr>reworking := True\<rparr>) = AUDIO_SEGMENTS_BUILT \<and>
   audio_segments (podcast_no_clips\<lparr>reworking := True\<rparr>) = [] \<and>
   stitch_audio_segments dummy_env (podcast_no_clips\<lparr>reworking := True\<rparr>) =
     Some (Inr (), podcast_no_clips\<lparr>reworking := True, audio := Some IntZero\<rparr>) \<and>
   \<not> audio_truthy (audio (podcast_no_clips\<lparr>reworking := True, audio := Some IntZero\<rparr>))"
proof -
  have h1: "reworking (podcast_no_clips\<lparr>reworking := True\<rparr>)"
    and h2: "state (podcast_no_clips\<lparr>reworking := True\<rparr>) = AUDIO_SEGMENTS_BUILT"
    and h3: "audio_segments (podcast_no_clips\<lparr>reworking := True\<rparr>) = []"
    by (simp_all add: podcast_no_clips_def reset_to_state_def podcast0_def)
  from stitch_of_empty_list_raises_nothing [OF h1 h2 h3, of dummy_env]
  obtain self' where
    run: "stitch_audio_segments dummy_env (podcast_no_clips\<lparr>reworking := True\<rparr>) =
            Some (Inr (), self')"
    and falsy: "\<not> audio_truthy (audio self')"
    by blast
  have eval: "stitch_audio_segments dummy_env (podcast_no_clips\<lparr>reworking := True\<rparr>) =
          Some (Inr (), podcast_no_clips\<lparr>reworking := True, audio := Some IntZero\<rparr>)"
    unfolding stitch_audio_segments_def podcast_stage_reworking [OF h1, unfolded h2, simplified]
    by (simp add: stitch_audio_segments_func_def podcast_no_clips_def reset_to_state_def
                  podcast0_def)
  from run eval have "self' = podcast_no_clips\<lparr>reworking := True, audio := Some IntZero\<rparr>"
    by simp
  with falsy
  have "\<not> audio_truthy (audio (podcast_no_clips\<lparr>reworking := True, audio := Some IntZero\<rparr>))"
    by simp
  with eval h1 h2 h3 show ?thesis by simp
qed

section \<open>Saving\<close>

text \<open>
  Claim C9 as stated fails. In state \<^verbatim>\<open>STITCHED\<close> with no audio (a fresh instance after
  \<^verbatim>\<open>reset_to_state(PodcastState.STITCHED)\<close>) \<^verbatim>\<open>save\<close> raises; and \<^verbatim>\<open>save_transcript\<close> raises
  \<^verbatim>\<open>TypeError\<close> in state \<^verbatim>\<open>TRANSCRIPT_BUILT\<close> with a transcript present, since it orders two
  members of a plain \<^verbatim>\<open>Enum\<close>.
\<close>

theorem save_and_save_transcript_raise_in_permitted_states:
  "save ''final.mp3'' (reset_to_state STITCHED podcast0) =
     (Inl (ValueError ''No stitched audio to save''), reset_to_state STITCHED podcast0) \<and>
   save_transcript ''final.txt'' podcast_transcript_built =
     (Inl (TypeError ''< not supported between instances of PodcastState''),
      podcast_transcript_built)"
  by (simp add: save_def save_transcript_def enum_less_def podcast0_def reset_to_state_def)

text \<open>
  Claim C9, as amended, for \<^verbatim>\<open>save\<close>: it raises the error of the wrong state if and only if
  the state is not \<^verbatim>\<open>STITCHED\<close>; in state \<^verbatim>\<open>STITCHED\<close> it raises
  \<^verbatim>\<open>No stitched audio to save\<close> when \<^verbatim>\<open>audio\<close> is falsy (\<^verbatim>\<open>None\<close>, 0 or an audio of length 0) and
  exports the audio otherwise.
\<close>

theorem save_guards:
  "(fst (save filepath' self) =
      Inl (ValueError ''Podcast can only be saved after audio is stitched'')
    \<longleftrightarrow> state self \<noteq> STITCHED) \<and>
   (state self \<noteq> STITCHED \<longrightarrow> snd (save filepath' self) = self) \<and>
   (state self = STITCHED \<and> \<not> audio_truthy (audio self) \<longrightarrow>
      save filepath' self = (Inl (ValueError ''No stitched audio to save''), self)) \<and>
   (state self = STITCHED \<and> audio_truthy (audio self) \<longrightarrow>
      (\<exists>a. audio self = Some (Pydub a) \<and>
           save filepath' self = (Inr (), self\<lparr>files := (filepath', Mp3 a) # files self\<rparr>)))"
  by (cases "audio self" rule: audio_truthy.cases) (auto simp: save_def)

theorem save_guards_witness:
  "save ''final.mp3'' podcast_transcript_built =
     (Inl (ValueError ''Podcast can only be saved after audio is stitched''),
      podcast_transcript_built) \<and>
   save ''final.mp3'' (podcast0\<lparr>state := STITCHED\<rparr>) =
     (Inl (ValueError ''No stitched audio to save''), podcast0\<lparr>state := STITCHED\<rparr>) \<and>
   save ''final.mp3'' podcast_stitched =
     (Inr (), podcast_stitched\<lparr>files := [(''final.mp3'', Mp3 [0, 0, 0, 0])]\<rparr>)"
proof -
  have a: "state podcast_transcript_built \<noteq> STITCHED"
    by (simp add: podcast_transcript_built_def)
  have b: "state (podcast0\<lparr>state := STITCHED\<rparr>) = STITCHED \<and>
           \<not> audio_truthy (audio (podcast0\<lparr>state := STITCHED\<rparr>))"
    by (simp add: podcast0_def)
  have c: "state podcast_stitched = STITCHED \<and> audio_truthy (audio podcast_stitched)"
    by (simp add: podcast_stitched_def)
  from save_guards [of "''final.mp3''" podcast_transcript_built] a
       save_guards [of "''final.mp3''" "podcast0\<lparr>state := STITCHED\<rparr>"] b
       save_guards [of "''final.mp3''" podcast_stitched] c
  show ?thesis
    by (auto simp: podcast_stitched_def podcast0_def prod_eq_iff)
qed

end
